theory Spec2Isabelle
  imports Main "HOL-Library.Sublist" "HOL-Library.Multiset"
begin

section \<open>Python string operations used by lowercase\_cpp\_hpp\_files.py\<close>

text \<open>
  File names are modelled as lists of 8-bit characters. Case conversion acts on the 26
  ASCII letters and leaves every other character alone, which is what \<^verbatim>\<open>str.lower\<close>,
  \<^verbatim>\<open>str.upper\<close> and \<^verbatim>\<open>str.capitalize\<close> do on ASCII names.
\<close>

definition upper_letters :: string where
  "upper_letters = ''ABCDEFGHIJKLMNOPQRSTUVWXYZ''"

definition lower_letters :: string where
  "lower_letters = ''abcdefghijklmnopqrstuvwxyz''"

definition lower_char :: "char \<Rightarrow> char" where
  "lower_char c = (case map_of (zip upper_letters lower_letters) c of Some d \<Rightarrow> d | None \<Rightarrow> c)"

definition upper_char :: "char \<Rightarrow> char" where
  "upper_char c = (case map_of (zip lower_letters upper_letters) c of Some d \<Rightarrow> d | None \<Rightarrow> c)"

definition str_lower :: "string \<Rightarrow> string" where
  "str_lower s = map lower_char s"

definition str_upper :: "string \<Rightarrow> string" where
  "str_upper s = map upper_char s"

text \<open>\<^verbatim>\<open>s.capitalize()\<close>: first character upper-cased, the rest lower-cased.\<close>

definition str_capitalize :: "string \<Rightarrow> string" where
  "str_capitalize s = (case s of [] \<Rightarrow> [] | c # cs \<Rightarrow> upper_char c # map lower_char cs)"

text \<open>\<^verbatim>\<open>s.split(sep)\<close> for a one-character separator: never the empty list.\<close>

fun str_split :: "char \<Rightarrow> string \<Rightarrow> string list" where
  "str_split sep [] = [[]]"
| "str_split sep (c # cs) =
     (if c = sep then [] # str_split sep cs
      else (case str_split sep cs of [] \<Rightarrow> [[c]] | w # ws \<Rightarrow> (c # w) # ws))"

definition startswith :: "string \<Rightarrow> string \<Rightarrow> bool" where
  "startswith s pre = prefix pre s"

definition endswith :: "string \<Rightarrow> string \<Rightarrow> bool" where
  "endswith s suf = prefix (rev suf) (rev s)"

text \<open>
  \<^verbatim>\<open>os.path.splitext\<close> on a name without a separator: split at the last dot, unless
  only dots stand before it (then the extension is empty).
\<close>

definition splitext :: "string \<Rightarrow> string \<times> string" where
  "splitext p =
     (let ext_rev = takeWhile (\<lambda>c. c \<noteq> CHR ''.'') (rev p);
          stem = take (length p - length ext_rev - 1) p
      in if length ext_rev < length p \<and> list_ex (\<lambda>c. c \<noteq> CHR ''.'') stem
         then (stem, drop (length stem) p)
         else (p, []))"

text \<open>\<^verbatim>\<open>os.path.join\<close> of a directory and a relative name.\<close>

definition path_join :: "string \<Rightarrow> string \<Rightarrow> string" where
  "path_join a b = (if a = [] \<or> last a = CHR ''/'' then a @ b else a @ ''/'' @ b)"

section \<open>The file system and the interpreter's environment\<close>

text \<open>
  Every file path the script builds is \<^verbatim>\<open>os.path.join(root, name)\<close> with \<open>root\<close> a
  directory yielded by \<^verbatim>\<open>os.walk\<close> and \<open>name\<close> a directory entry, so a file path is kept
  as the pair \<open>(root, name)\<close>; \<^verbatim>\<open>os.path.dirname\<close> of it is the first component and its
  extension is the extension of the second. Names are case-sensitive, as on a POSIX file
  system. Directories are named by the string \<^verbatim>\<open>os.walk\<close> yields for them (no trailing
  separator); the script never creates or removes one.

  A system call can raise. \<open>faults\<close> says, for each coming fallible call, whether the
  operating system refuses it; past the end of the list no call is refused.
  \<open>uuid_src\<close> and \<open>uuid_next\<close> stand for \<^verbatim>\<open>uuid.uuid4().hex\<close>, and \<open>set_order\<close> for the
  order in which \<^verbatim>\<open>list(set(xs))\<close> enumerates a set of strings in this interpreter run.
\<close>

type_synonym path = "string \<times> string"

datatype error =
    FileNotFoundError path
  | OSError
  | NameError string

record world =
  dirs :: "string list"
  files :: "(path \<times> string) list"
  faults :: "bool list"
  uuid_src :: "nat \<Rightarrow> string"
  uuid_next :: nat
  set_order :: "string list \<Rightarrow> string list"

type_synonym 'a io = "world \<Rightarrow> (error + 'a) \<times> world"

definition io_return :: "'a \<Rightarrow> 'a io" where
  "io_return x w = (Inr x, w)"

definition io_raise :: "error \<Rightarrow> 'a io" where
  "io_raise e w = (Inl e, w)"

definition io_bind :: "'a io \<Rightarrow> ('a \<Rightarrow> 'b io) \<Rightarrow> 'b io" where
  "io_bind m f w = (case m w of (Inl e, w') \<Rightarrow> (Inl e, w') | (Inr x, w') \<Rightarrow> f x w')"

definition fault_next :: "world \<Rightarrow> bool \<times> world" where
  "fault_next w = (case faults w of [] \<Rightarrow> (False, w) | b # bs \<Rightarrow> (b, w\<lparr>faults := bs\<rparr>))"

definition uuid4_hex :: "world \<Rightarrow> string \<times> world" where
  "uuid4_hex w = (uuid_src w (uuid_next w), w\<lparr>uuid_next := Suc (uuid_next w)\<rparr>)"

definition lookup :: "world \<Rightarrow> path \<Rightarrow> string option" where
  "lookup w p = map_of (files w) p"

definition path_exists :: "world \<Rightarrow> path \<Rightarrow> bool" where
  "path_exists w p = (lookup w p \<noteq> None)"

definition delete_entry :: "path \<Rightarrow> (path \<times> string) list \<Rightarrow> (path \<times> string) list" where
  "delete_entry p fs = filter (\<lambda>kv. fst kv \<noteq> p) fs"

text \<open>
  \<^verbatim>\<open>os.rename(src, dst)\<close>: a missing source raises; an existing destination is replaced
  silently (POSIX); renaming a file to itself does nothing.
\<close>

definition move_entry :: "path \<Rightarrow> path \<Rightarrow> (path \<times> string) list \<Rightarrow> (path \<times> string) list" where
  "move_entry src dst fs =
     (if src = dst then fs
      else map (\<lambda>kv. if fst kv = src then (dst, snd kv) else kv) (delete_entry dst fs))"

definition os_rename :: "path \<Rightarrow> path \<Rightarrow> unit io" where
  "os_rename src dst w =
     (case fault_next w of
        (True, w1) \<Rightarrow> (Inl OSError, w1)
      | (False, w1) \<Rightarrow>
          (case lookup w1 src of
             None \<Rightarrow> (Inl (FileNotFoundError src), w1)
           | Some c \<Rightarrow> (Inr (), w1\<lparr>files := move_entry src dst (files w1)\<rparr>)))"

definition os_remove :: "path \<Rightarrow> unit io" where
  "os_remove p w =
     (case fault_next w of
        (True, w1) \<Rightarrow> (Inl OSError, w1)
      | (False, w1) \<Rightarrow>
          (case lookup w1 p of
             None \<Rightarrow> (Inl (FileNotFoundError p), w1)
           | Some c \<Rightarrow> (Inr (), w1\<lparr>files := delete_entry p (files w1)\<rparr>)))"

definition os_getsize :: "path \<Rightarrow> nat io" where
  "os_getsize p w =
     (case fault_next w of
        (True, w1) \<Rightarrow> (Inl OSError, w1)
      | (False, w1) \<Rightarrow>
          (case lookup w1 p of
             None \<Rightarrow> (Inl (FileNotFoundError p), w1)
           | Some c \<Rightarrow> (Inr (length c), w1)))"

text \<open>\<^verbatim>\<open>open(p, 'rb')\<close> followed by \<^verbatim>\<open>read()\<close>.\<close>

definition read_bytes :: "path \<Rightarrow> string io" where
  "read_bytes p w =
     (case fault_next w of
        (True, w1) \<Rightarrow> (Inl OSError, w1)
      | (False, w1) \<Rightarrow>
          (case lookup w1 p of
             None \<Rightarrow> (Inl (FileNotFoundError p), w1)
           | Some c \<Rightarrow> (Inr c, w1)))"

definition listdir :: "world \<Rightarrow> string \<Rightarrow> string list" where
  "listdir w d = map (\<lambda>kv. snd (fst kv)) (filter (\<lambda>kv. fst (fst kv) = d) (files w))"

definition os_walk_dirs :: "world \<Rightarrow> string \<Rightarrow> string list" where
  "os_walk_dirs w start = filter (\<lambda>d. d = start \<or> prefix (start @ ''/'') d) (dirs w)"

definition os_walk :: "world \<Rightarrow> string \<Rightarrow> (string \<times> string list) list" where
  "os_walk w start = map (\<lambda>d. (d, listdir w d)) (os_walk_dirs w start)"

definition os_path_isdir :: "world \<Rightarrow> string \<Rightarrow> bool" where
  "os_path_isdir w d = (d \<in> set (dirs w))"

section \<open>convert\_to\_lowercase\<close>

type_synonym plan = "path \<times> path"

definition in_scope :: "string \<Rightarrow> bool" where
  "in_scope filename =
     (endswith (str_lower filename) ''.cpp'' \<or> endswith (str_lower filename) ''.hpp'')"

definition should_exclude :: "string list \<Rightarrow> string \<Rightarrow> bool" where
  "should_exclude exclude_dirs root = list_ex (\<lambda>exclude_dir. startswith root exclude_dir) exclude_dirs"

text \<open>
  First pass. Besides the list \<open>files_to_rename\<close> the loop leaves the variable
  \<open>lowercase_filename\<close> behind, holding the lower-cased name of the last in-scope file
  it looked at (unbound, \<open>None\<close>, when there was none); the second pass reads it.
\<close>

fun scan_files :: "string \<Rightarrow> string list \<Rightarrow> plan list \<times> string option \<Rightarrow> plan list \<times> string option" where
  "scan_files root [] st = st"
| "scan_files root (filename # rest) (files_to_rename, lf) =
     (if in_scope filename then
        (let filepath = (root, filename);
             lowercase_filename = str_lower filename;
             lowercase_filepath = (root, lowercase_filename)
         in scan_files root rest
              (if filename \<noteq> lowercase_filename
               then files_to_rename @ [(filepath, lowercase_filepath)]
               else files_to_rename,
               Some lowercase_filename))
      else scan_files root rest (files_to_rename, lf))"

fun scan_walk :: "string list \<Rightarrow> (string \<times> string list) list \<Rightarrow> plan list \<times> string option \<Rightarrow> plan list \<times> string option" where
  "scan_walk exclude_dirs [] st = st"
| "scan_walk exclude_dirs ((root, fs) # rest) st =
     (if should_exclude exclude_dirs root then scan_walk exclude_dirs rest st
      else scan_walk exclude_dirs rest (scan_files root fs st))"

definition first_pass :: "string \<Rightarrow> string list \<Rightarrow> world \<Rightarrow> plan list \<times> string option" where
  "first_pass directory exclude_dirs w = scan_walk exclude_dirs (os_walk w directory) ([], None)"

text \<open>Step 2 of the second pass: move an existing destination out of the way.\<close>

definition backup_existing :: "path \<Rightarrow> path option io" where
  "backup_existing lowercase_filepath w =
     (if path_exists w lowercase_filepath then
        (let (u, w1) = uuid4_hex w;
             backup_filename = ''backup_'' @ u @ snd (splitext (snd lowercase_filepath));
             backup_filepath = (fst lowercase_filepath, backup_filename)
         in io_bind (os_rename lowercase_filepath backup_filepath)
              (\<lambda>_. io_return (Some backup_filepath)) w1)
      else io_return None w)"

text \<open>Step 4's test: sizes first, then the bytes.\<close>

definition identical :: "path \<Rightarrow> path \<Rightarrow> bool io" where
  "identical backup_filepath lowercase_filepath =
     io_bind (os_getsize backup_filepath) (\<lambda>n1.
     io_bind (os_getsize lowercase_filepath) (\<lambda>n2.
       if n1 = n2 then
         io_bind (read_bytes backup_filepath) (\<lambda>c1.
         io_bind (read_bytes lowercase_filepath) (\<lambda>c2.
           io_return (c1 = c2)))
       else io_return False))"

definition alt_name :: "string \<Rightarrow> string" where
  "alt_name lowercase_filename =
     fst (splitext lowercase_filename) @ ''_alt'' @ snd (splitext lowercase_filename)"

text \<open>The body of the \<^verbatim>\<open>try\<close>, from the first rename on.\<close>

definition rename_steps :: "string option \<Rightarrow> path \<Rightarrow> path \<Rightarrow> path \<Rightarrow> unit io" where
  "rename_steps lf filepath lowercase_filepath temp_filepath =
     io_bind (os_rename filepath temp_filepath) (\<lambda>_.
     io_bind (backup_existing lowercase_filepath) (\<lambda>backup.
     io_bind (os_rename temp_filepath lowercase_filepath) (\<lambda>_.
       case backup of
         None \<Rightarrow> io_return ()
       | Some backup_filepath \<Rightarrow>
           io_bind (identical backup_filepath lowercase_filepath) (\<lambda>same.
             if same then os_remove backup_filepath
             else (case lf of
                     None \<Rightarrow> io_raise (NameError ''lowercase_filename'')
                   | Some lowercase_filename \<Rightarrow>
                       os_rename backup_filepath
                         (fst lowercase_filepath, alt_name lowercase_filename))))))"

text \<open>The \<^verbatim>\<open>except\<close> branch's attempt to put the file back; its own failure is ignored.\<close>

definition restore :: "path \<Rightarrow> path \<Rightarrow> world \<Rightarrow> world" where
  "restore temp_filepath filepath w =
     (if path_exists w temp_filepath then snd (os_rename temp_filepath filepath w) else w)"

definition temp_path :: "string \<Rightarrow> string \<Rightarrow> string \<Rightarrow> path" where
  "temp_path d u filename = (d, ''temp_'' @ u @ snd (splitext filename))"

type_synonym outcome = "world \<times> plan list \<times> (path \<times> error) list"

definition convert_one :: "string option \<Rightarrow> plan \<Rightarrow> outcome \<Rightarrow> outcome" where
  "convert_one lf pl st =
     (case (pl, st) of ((filepath, lowercase_filepath), (w, renamed_files, skipped_files)) \<Rightarrow>
        (let (u, w1) = uuid4_hex w;
             temp_filepath = temp_path (fst filepath) u (snd filepath)
         in case rename_steps lf filepath lowercase_filepath temp_filepath w1 of
              (Inr _, w2) \<Rightarrow> (w2, renamed_files @ [(filepath, lowercase_filepath)], skipped_files)
            | (Inl e, w2) \<Rightarrow>
                (restore temp_filepath filepath w2, renamed_files, skipped_files @ [(filepath, e)])))"

fun second_pass :: "string option \<Rightarrow> plan list \<Rightarrow> outcome \<Rightarrow> outcome" where
  "second_pass lf [] st = st"
| "second_pass lf (pl # rest) st = second_pass lf rest (convert_one lf pl st)"

section \<open>revert\_lowercase\_conversion\<close>

definition case_map :: "string \<Rightarrow> string list option" where
  "case_map = map_of [(''cpp'', [''CPP'', ''Cpp'']), (''hpp'', [''HPP'', ''Hpp''])]"

definition cap_first :: "string \<Rightarrow> string" where
  "cap_first s = (case s of [] \<Rightarrow> [] | c # cs \<Rightarrow> upper_char c # cs)"

definition camel_case :: "string \<Rightarrow> string" where
  "camel_case s =
     (case str_split (CHR ''_'') s of [] \<Rightarrow> [] | w # ws \<Rightarrow> w @ concat (map str_capitalize ws))"

definition pascal_case :: "string \<Rightarrow> string" where
  "pascal_case s = concat (map str_capitalize (str_split (CHR ''_'') s))"

definition capitalization_patterns :: "(string \<Rightarrow> string) list" where
  "capitalization_patterns = [cap_first, str_upper, camel_case, pascal_case]"

definition ext_variants :: "string \<Rightarrow> string list" where
  "ext_variants ext =
     (case case_map (str_lower ext) of Some vs \<Rightarrow> vs | None \<Rightarrow> [str_upper ext, str_capitalize ext])"

text \<open>The list \<open>potential_original_names\<close> as the loops build it, before the duplicates go.\<close>

definition built_names :: "string \<Rightarrow> string \<Rightarrow> string list" where
  "built_names name ext =
     concat (map (\<lambda>pattern.
                    (let potential_name = pattern name
                     in if potential_name \<noteq> name
                        then map (\<lambda>potential_ext. potential_name @ ''.'' @ potential_ext) (ext_variants ext)
                        else []))
                 capitalization_patterns)
     @ [str_upper name @ ''.'' @ ext, str_capitalize name @ ''.'' @ ext]"

definition potential_original_names :: "world \<Rightarrow> string \<Rightarrow> string list" where
  "potential_original_names w filename =
     (let (name, dot_ext) = splitext filename; ext = drop 1 dot_ext
      in set_order w (built_names name ext))"

definition similar_files :: "world \<Rightarrow> string \<Rightarrow> string \<Rightarrow> string list" where
  "similar_files w root filename =
     concat (map (\<lambda>(root_dir, dir_files).
                    if root_dir \<noteq> root then []
                    else filter (\<lambda>dir_file. str_lower dir_file = str_lower filename \<and> dir_file \<noteq> filename)
                           dir_files)
                 (os_walk w root))"

text \<open>Both branches rename through a temporary name and put the file back on failure.\<close>

definition revert_to :: "path \<Rightarrow> path \<Rightarrow> world \<Rightarrow> bool \<times> world" where
  "revert_to filepath original_path w =
     (let (u, w1) = uuid4_hex w;
          temp_filepath = temp_path (fst filepath) u (snd filepath)
      in case io_bind (os_rename filepath temp_filepath)
                (\<lambda>_. os_rename temp_filepath original_path) w1 of
           (Inr _, w2) \<Rightarrow> (True, w2)
         | (Inl e, w2) \<Rightarrow> (False, restore temp_filepath filepath w2))"

fun try_names :: "path \<Rightarrow> string list \<Rightarrow> world \<times> plan list \<Rightarrow> world \<times> plan list" where
  "try_names filepath [] st = st"
| "try_names filepath (original_name # rest) (w, reverted_files) =
     (let original_path = (fst filepath, original_name)
      in if path_exists w original_path then try_names filepath rest (w, reverted_files)
         else (case revert_to filepath original_path w of
                 (True, w') \<Rightarrow> (w', reverted_files @ [(filepath, original_path)])
               | (False, w') \<Rightarrow> try_names filepath rest (w', reverted_files)))"

definition revert_one :: "string \<Rightarrow> string \<Rightarrow> world \<times> plan list \<Rightarrow> world \<times> plan list" where
  "revert_one root filename st =
     (case st of (w, reverted_files) \<Rightarrow>
        if in_scope filename then
          (let filepath = (root, filename)
           in if filename \<noteq> str_lower filename then (w, reverted_files)
              else (let names = potential_original_names w filename
                    in case similar_files w root filename of
                         original_name # _ \<Rightarrow>
                           (let original_path = (root, original_name)
                            in case revert_to filepath original_path w of
                                 (True, w') \<Rightarrow> (w', reverted_files @ [(filepath, original_path)])
                               | (False, w') \<Rightarrow> (w', reverted_files))
                       | [] \<Rightarrow> try_names filepath names (w, reverted_files)))
        else (w, reverted_files))"

fun revert_files :: "string \<Rightarrow> string list \<Rightarrow> world \<times> plan list \<Rightarrow> world \<times> plan list" where
  "revert_files root [] st = st"
| "revert_files root (filename # rest) st = revert_files root rest (revert_one root filename st)"

text \<open>\<^verbatim>\<open>os.walk\<close> lists a directory when it reaches it.\<close>

fun revert_walk :: "string list \<Rightarrow> world \<times> plan list \<Rightarrow> world \<times> plan list" where
  "revert_walk [] st = st"
| "revert_walk (root # rest) st = revert_walk rest (revert_files root (listdir (fst st) root) st)"

definition revert_lowercase_conversion :: "string \<Rightarrow> world \<Rightarrow> world \<times> plan list" where
  "revert_lowercase_conversion directory w = revert_walk (os_walk_dirs w directory) (w, [])"

fun revert_all :: "string list \<Rightarrow> world \<times> plan list \<Rightarrow> world \<times> plan list" where
  "revert_all [] st = st"
| "revert_all (revert_dir # rest) (w, reverted_files) =
     (case revert_lowercase_conversion revert_dir w of
        (w', r) \<Rightarrow> revert_all rest (w', reverted_files @ r))"

type_synonym report = "plan list \<times> (path \<times> error) list \<times> plan list"

definition convert_to_lowercase :: "string \<Rightarrow> string list \<Rightarrow> string list \<Rightarrow> world \<Rightarrow> world \<times> report" where
  "convert_to_lowercase directory exclude_dirs revert_dirs w =
     (case revert_all revert_dirs (w, []) of
        (w1, reverted_files) \<Rightarrow>
          (case first_pass directory exclude_dirs w1 of
             (files_to_rename, lf) \<Rightarrow>
               (case second_pass lf files_to_rename (w1, [], []) of
                  (w2, renamed_files, skipped_files) \<Rightarrow>
                    (w2, renamed_files, skipped_files, reverted_files))))"

section \<open>main\<close>

definition split_commas :: "string \<Rightarrow> string list" where
  "split_commas s = str_split (CHR '','') s"

fun parse_args :: "string list \<Rightarrow> string list \<times> string list \<Rightarrow> (string list \<times> string list) option" where
  "parse_args [] acc = Some acc"
| "parse_args [a] acc = None"
| "parse_args (a # v # rest) (exclude_dirs, revert_dirs) =
     (if a = ''--exclude'' then parse_args rest (split_commas v, revert_dirs)
      else if a = ''--revert'' then parse_args rest (exclude_dirs, split_commas v)
      else None)"

text \<open>\<open>Inl\<close> is the exit status of \<^verbatim>\<open>sys.exit\<close>; \<open>argv\<close> is \<^verbatim>\<open>sys.argv\<close>, script name first.\<close>

definition main :: "string list \<Rightarrow> world \<Rightarrow> nat + world \<times> report" where
  "main argv w =
     (case argv of
        script # directory # args \<Rightarrow>
          if \<not> os_path_isdir w directory then Inl 1
          else (case parse_args args ([], []) of
                  None \<Rightarrow> Inl 1
                | Some (exclude_dirs, revert_dirs) \<Rightarrow>
                    (let lib_dir = path_join directory ''lib'';
                         exclude_dirs' =
                           (if exclude_dirs = [] \<and> revert_dirs = [] \<and> os_path_isdir w lib_dir
                            then [lib_dir] else exclude_dirs)
                     in Inr (convert_to_lowercase directory exclude_dirs' revert_dirs w)))
      | _ \<Rightarrow> Inl 1)"

section \<open>The spec's reading of the candidate sequence\<close>

text \<open>
  Following the spec's words (section 4.4), for comparison with \<open>built_names\<close>: an
  optional sibling first, then the four transforms in order, each combined with an
  upper-case and a title-case variant of the extension.
\<close>

definition spec_guess_sequence :: "string option \<Rightarrow> string \<Rightarrow> string \<Rightarrow> string list" where
  "spec_guess_sequence sibling name ext =
     (case sibling of None \<Rightarrow> [] | Some s \<Rightarrow> [s])
     @ concat (map (\<lambda>transform. map (\<lambda>e. transform name @ ''.'' @ e) [str_upper ext, str_capitalize ext])
                 [cap_first, str_upper, camel_case, pascal_case])"

section \<open>Example file systems\<close>

text \<open>
  Small worlds for the concrete runs below: generated names \<open>0\<close>, \<open>00\<close>, \<open>000\<close>, ...,
  and a set order that keeps the last occurrence of each element.
\<close>

definition hex_src :: "nat \<Rightarrow> string" where
  "hex_src n = replicate (Suc n) (CHR ''0'')"

definition example_world :: "string list \<Rightarrow> (path \<times> string) list \<Rightarrow> bool list \<Rightarrow> world" where
  "example_world ds fs flts =
     \<lparr>dirs = ds, files = fs, faults = flts, uuid_src = hex_src, uuid_next = 0, set_order = remdups\<rparr>"

definition sibling_world :: world where
  "sibling_world =
     example_world [''/r''] [((''/r'', ''foo.hpp''), ''new''), ((''/r'', ''Foo.hpp''), ''old'')] []"

definition stale_world :: world where
  "stale_world =
     example_world [''/r'']
       [((''/r'', ''Foo.hpp''), ''A''), ((''/r'', ''foo.hpp''), ''B''), ((''/r'', ''Bar.cpp''), ''C'')] []"

definition lib_world :: world where
  "lib_world = example_world [''/r'', ''/r/lib''] [((''/r/lib'', ''foo.hpp''), ''A'')] []"

definition digits_world :: world where
  "digits_world = example_world [''/r''] [((''/r'', ''123.hpp''), ''A'')] []"



definition prefix_world :: world where
  "prefix_world =
     example_world [''/src'', ''/src/lib'', ''/src/libfoo'']
       [((''/src'', ''Main.cpp''), ''m''), ((''/src/lib'', ''Vendor.hpp''), ''v''),
        ((''/src/libfoo'', ''Foo.hpp''), ''f'')] []"


definition refused_once_world :: world where
  "refused_once_world =
     example_world [''/r'']
       [((''/r'', ''Foo.hpp''), ''A''), ((''/r'', ''foo.hpp''), ''B''), ((''/r'', ''Bar.cpp''), ''C'')]
       [False, True]"

definition sibling_refused_world :: world where
  "sibling_refused_world =
     example_world [''/r''] [((''/r'', ''foo.hpp''), ''new''), ((''/r'', ''Foo.hpp''), ''old'')] [True]"


section \<open>Auxiliary notions for the proofs\<close>

text \<open>The plans the first pass emits for one directory listing.\<close>

definition plans_in :: "string \<Rightarrow> string list \<Rightarrow> plan list" where
  "plans_in root fs =
     map (\<lambda>f. ((root, f), (root, str_lower f))) (filter (\<lambda>f. in_scope f \<and> f \<noteq> str_lower f) fs)"

text \<open>The entries of one directory, names and bytes, in listing order.\<close>

definition dir_entries :: "world \<Rightarrow> string \<Rightarrow> (path \<times> string) list" where
  "dir_entries w d = filter (\<lambda>kv. fst (fst kv) = d) (files w)"

text \<open>
  What an action does to the file list and what it returns: \<open>R\<close> relates the list before
  to the list after, whether the action raises or not, and \<open>P\<close> holds of a returned value.
\<close>

definition io_spec :: "((path \<times> string) list \<Rightarrow> (path \<times> string) list \<Rightarrow> bool) \<Rightarrow> ('a \<Rightarrow> bool) \<Rightarrow> 'a io \<Rightarrow> bool" where
  "io_spec R P m =
     (\<forall>w. R (files w) (files (snd (m w))) \<and> (case fst (m w) of Inl e \<Rightarrow> True | Inr x \<Rightarrow> P x))"

text \<open>The entries of directory \<open>r\<close> are the same in both lists.\<close>

definition untouched :: "string \<Rightarrow> (path \<times> string) list \<Rightarrow> (path \<times> string) list \<Rightarrow> bool" where
  "untouched r fs fs' = (filter (\<lambda>kv. fst (fst kv) = r) fs' = filter (\<lambda>kv. fst (fst kv) = r) fs)"



section \<open>The code at the inputs where it leaves the spec\<close>

text \<open>
  C1. Reversal never chooses an existing path as its target. The branch for a sibling
  that matches case-insensitively has no existence test: with \<open>foo.hpp\<close> and \<open>Foo.hpp\<close>
  in one directory, \<open>Foo.hpp\<close> exists, is chosen as the target and is replaced.
\<close>

theorem C1_sibling_target_exists:
  "path_exists sibling_world (''/r'', ''Foo.hpp'') \<and>
   snd (revert_lowercase_conversion ''/r'' sibling_world)
     = [((''/r'', ''foo.hpp''), (''/r'', ''Foo.hpp''))]"
  by code_simp

text \<open>
  C2. The alternate name of a displaced destination is built from the destination of
  the plan at hand. The second pass reads the first pass's loop variable instead: with
  \<open>Foo.hpp\<close>, \<open>foo.hpp\<close> and \<open>Bar.cpp\<close> listed in this order, the old \<open>foo.hpp\<close> ends up
  as \<open>bar_alt.cpp\<close>, and no \<open>foo_alt.hpp\<close> exists.
\<close>

theorem C2_alt_name_of_last_file:
  "first_pass ''/r'' [] stale_world
     = ([((''/r'', ''Foo.hpp''), (''/r'', ''foo.hpp'')), ((''/r'', ''Bar.cpp''), (''/r'', ''bar.cpp''))],
        Some ''bar.cpp'') \<and>
   files (fst (convert_to_lowercase ''/r'' [] [] stale_world))
     = [((''/r'', ''foo.hpp''), ''A''), ((''/r'', ''bar_alt.cpp''), ''B''), ((''/r'', ''bar.cpp''), ''C'')] \<and>
   lookup (fst (convert_to_lowercase ''/r'' [] [] stale_world)) (''/r'', ''foo_alt.hpp'') = None"
  by code_simp

text \<open>
  C3. With \<open>--revert /r/lib\<close> the forward pass still walks \<open>/r/lib\<close>: the file
  reverted there is lower-cased again in the same run, and is reported both as reverted
  and as renamed.
\<close>

theorem C3_revert_dir_lowercased_again:
  "(case main [''lowercase_cpp_hpp_files.py'', ''/r'', ''--revert'', ''/r/lib''] lib_world of
      Inl status \<Rightarrow> False
    | Inr (w, renamed_files, skipped_files, reverted_files) \<Rightarrow>
        files w = [((''/r/lib'', ''foo.hpp''), ''A'')] \<and>
        renamed_files = [((''/r/lib'', ''FOO.HPP''), (''/r/lib'', ''foo.hpp''))] \<and>
        reverted_files = [((''/r/lib'', ''foo.hpp''), (''/r/lib'', ''FOO.HPP''))])"
  by code_simp

text \<open>
  C10. A revert pass leaves every file with an upper-case letter in its name as it is.
  Through the sibling branch of C1 the bytes of \<open>Foo.hpp\<close> are replaced by those of
  \<open>foo.hpp\<close>, and its former content is in no file afterwards.
\<close>

theorem C10_uppercase_file_replaced:
  "lookup sibling_world (''/r'', ''Foo.hpp'') = Some ''old'' \<and>
   files (fst (revert_lowercase_conversion ''/r'' sibling_world)) = [((''/r'', ''Foo.hpp''), ''new'')]"
  by code_simp


text \<open>
  C9, as the spec states it: the candidates are the four transforms in order, each with
  its extension variants. For \<open>foo.hpp\<close> the code's candidates hold \<open>FOO.hpp\<close>, which is
  none of these, and lack \<open>foo.HPP\<close> (camelCase leaves \<open>foo\<close> as it is, and the code
  drops a transform that changes nothing); this holds whatever the order of the set.
  And the transforms do not follow a sibling: in \<open>sibling_refused_world\<close> the rename to
  the sibling \<open>Foo.hpp\<close> is refused, \<open>Foo.HPP\<close> is free, and nothing else is tried.
\<close>

theorem C9_candidates_differ_counterexample:
  "''FOO.hpp'' \<in> set (built_names ''foo'' ''hpp'') \<and>
   ''FOO.hpp'' \<notin> set (spec_guess_sequence None ''foo'' ''hpp'') \<and>
   ''foo.HPP'' \<in> set (spec_guess_sequence None ''foo'' ''hpp'') \<and>
   ''foo.HPP'' \<notin> set (built_names ''foo'' ''hpp'') \<and>
   potential_original_names digits_world ''foo.hpp'' \<noteq> spec_guess_sequence None ''foo'' ''hpp'' \<and>
   similar_files sibling_refused_world ''/r'' ''foo.hpp'' = [''Foo.hpp''] \<and>
   \<not> path_exists sibling_refused_world (''/r'', ''Foo.HPP'') \<and>
   snd (revert_lowercase_conversion ''/r'' sibling_refused_world) = []"
  by code_simp

section \<open>The first pass\<close>

lemma fst_scan_files:
  "fst (scan_files root fs (ftr, lf)) = ftr @ plans_in root fs"
  by (induction fs arbitrary: ftr lf) (auto simp: plans_in_def Let_def)

lemma fst_scan_walk:
  "fst (scan_walk ex wk st) =
     fst st @ concat (map (\<lambda>(root, fs). if should_exclude ex root then [] else plans_in root fs) wk)"
proof (induction wk arbitrary: st)
  case Nil
  show ?case by simp
next
  case (Cons a wk)
  obtain root fs where a: "a = (root, fs)" by (cases a)
  obtain ftr lf where st: "st = (ftr, lf)" by (cases st)
  show ?case
    using Cons.IH [of st] Cons.IH [of "scan_files root fs (ftr, lf)"] fst_scan_files [of root fs ftr lf]
    by (simp add: a st)
qed

lemma first_pass_plans:
  "fst (first_pass directory ex w) =
     concat (map (\<lambda>(root, fs). if should_exclude ex root then [] else plans_in root fs) (os_walk w directory))"
  by (simp add: first_pass_def fst_scan_walk)

lemma plan_shape:
  assumes "pl \<in> set (fst (first_pass directory ex w))"
  shows "in_scope (snd (fst pl)) \<and> snd (fst pl) \<noteq> str_lower (snd (fst pl))
         \<and> snd pl = (fst (fst pl), str_lower (snd (fst pl)))
         \<and> \<not> should_exclude ex (fst (fst pl))"
  using assms by (auto simp: first_pass_plans plans_in_def split: if_splits)


section \<open>System calls that succeed\<close>

lemma map_of_delete_entry: "map_of (delete_entry p fs) = (map_of fs)(p := None)"
  by (induction fs) (auto simp: delete_entry_def fun_eq_iff)

lemma map_of_rekey:
  "src \<noteq> dst \<Longrightarrow> map_of fs dst = None \<Longrightarrow>
   map_of (map (\<lambda>kv. if fst kv = src then (dst, snd kv) else kv) fs)
     = ((map_of fs)(src := None))(dst := map_of fs src)"
  by (induction fs) (auto simp: fun_eq_iff)

lemma map_of_move_entry:
  "map_of (move_entry src dst fs) =
     (if src = dst then map_of fs else ((map_of fs)(src := None))(dst := map_of fs src))"
proof (cases "src = dst")
  case True
  then show ?thesis by (simp add: move_entry_def)
next
  case False
  have "map_of (delete_entry dst fs) dst = None" by (simp add: map_of_delete_entry)
  from map_of_rekey [OF False this] False show ?thesis
    by (auto simp: move_entry_def map_of_delete_entry fun_eq_iff)
qed








lemma backup_existing_none:
  assumes "lookup w p = None"
  shows "backup_existing p w = (Inr None, w)"
  using assms by (simp add: backup_existing_def path_exists_def io_return_def)

section \<open>What the second pass can touch\<close>

lemma io_specD:
  "io_spec R P m \<Longrightarrow> R (files w) (files (snd (m w)))"
  "io_spec R P m \<Longrightarrow> m w = (Inr x, w') \<Longrightarrow> P x"
  by (auto simp: io_spec_def dest: spec [of _ w])

lemma spec_bind:
  assumes "transp R" and "io_spec R P m" and "\<And>x. P x \<Longrightarrow> io_spec R Q (f x)"
  shows "io_spec R Q (io_bind m f)"
  unfolding io_spec_def
proof
  fix w :: world
  obtain r w' where mw: "m w = (r, w')" by (cases "m w")
  have a: "R (files w) (files w')" using io_specD(1) [OF assms(2), of w] mw by simp
  show "R (files w) (files (snd (io_bind m f w))) \<and>
        (case fst (io_bind m f w) of Inl e \<Rightarrow> True | Inr x \<Rightarrow> Q x)"
  proof (cases r)
    case (Inl e)
    then show ?thesis using a mw by (simp add: io_bind_def)
  next
    case (Inr x)
    have px: "P x" using io_specD(2) [OF assms(2)] mw Inr by simp
    from assms(3) [OF px] have
      b: "R (files w') (files (snd (f x w')))" and c: "case fst (f x w') of Inl e \<Rightarrow> True | Inr y \<Rightarrow> Q y"
      by (simp_all add: io_spec_def)
    from a b assms(1) have "R (files w) (files (snd (f x w')))" by (blast dest: transpD)
    then show ?thesis using Inr mw c by (simp add: io_bind_def)
  qed
qed

lemma spec_return: "reflp R \<Longrightarrow> P x \<Longrightarrow> io_spec R P (io_return x)"
  by (simp add: io_spec_def io_return_def reflpD)

lemma spec_raise: "reflp R \<Longrightarrow> io_spec R P (io_raise e)"
  by (simp add: io_spec_def io_raise_def reflpD)

lemma spec_os_rename:
  assumes "reflp R" and "\<And>fs. R fs (move_entry src dst fs)"
  shows "io_spec R (\<lambda>_. True) (os_rename src dst)"
  using assms
  by (auto simp: io_spec_def os_rename_def fault_next_def reflpD lookup_def
      split: list.splits option.splits bool.splits)

lemma spec_os_remove:
  assumes "reflp R" and "\<And>fs. R fs (delete_entry p fs)"
  shows "io_spec R (\<lambda>_. True) (os_remove p)"
  using assms
  by (auto simp: io_spec_def os_remove_def fault_next_def reflpD lookup_def
      split: list.splits option.splits bool.splits)

lemma spec_os_getsize: "reflp R \<Longrightarrow> io_spec R (\<lambda>_. True) (os_getsize p)"
  by (auto simp: io_spec_def os_getsize_def fault_next_def reflpD lookup_def
      split: list.splits option.splits bool.splits)

lemma spec_read_bytes: "reflp R \<Longrightarrow> io_spec R (\<lambda>_. True) (read_bytes p)"
  by (auto simp: io_spec_def read_bytes_def fault_next_def reflpD lookup_def
      split: list.splits option.splits bool.splits)

lemma spec_identical:
  assumes r: "reflp R" and t: "transp R"
  shows "io_spec R (\<lambda>_. True) (identical p q)"
proof -
  have inner: "io_spec R (\<lambda>_. True)
      (io_bind (read_bytes p) (\<lambda>c1. io_bind (read_bytes q) (\<lambda>c2. io_return (c1 = c2))))"
    by (rule spec_bind [OF t spec_read_bytes [OF r]],
        rule spec_bind [OF t spec_read_bytes [OF r]], rule spec_return [OF r], simp)
  show ?thesis
    unfolding identical_def
    apply (rule spec_bind [OF t spec_os_getsize [OF r]])
    apply (rule spec_bind [OF t spec_os_getsize [OF r]])
    apply (simp add: inner spec_return [OF r])
    done
qed

lemma spec_backup_existing:
  assumes r: "reflp R" and t: "transp R" and mv: "\<And>fs q. fst q = fst p \<Longrightarrow> R fs (move_entry p q fs)"
  shows "io_spec R (\<lambda>b. case b of None \<Rightarrow> True | Some q \<Rightarrow> fst q = fst p) (backup_existing p)"
  unfolding io_spec_def
proof
  fix w :: world
  let ?w1 = "w\<lparr>uuid_next := Suc (uuid_next w)\<rparr>"
  let ?b = "(fst p, ''backup_'' @ uuid_src w (uuid_next w) @ snd (splitext (snd p)))"
  let ?P = "\<lambda>b. case b of None \<Rightarrow> True | Some q \<Rightarrow> fst q = fst p"
  have "io_spec R ?P (io_bind (os_rename p ?b) (\<lambda>_. io_return (Some ?b)))"
    by (rule spec_bind [OF t spec_os_rename [OF r]]) (simp_all add: mv spec_return [OF r])
  then have "R (files ?w1) (files (snd (io_bind (os_rename p ?b) (\<lambda>_. io_return (Some ?b)) ?w1)))
      \<and> (case fst (io_bind (os_rename p ?b) (\<lambda>_. io_return (Some ?b)) ?w1) of Inl e \<Rightarrow> True | Inr x \<Rightarrow> ?P x)"
    unfolding io_spec_def by blast
  then show "R (files w) (files (snd (backup_existing p w))) \<and>
      (case fst (backup_existing p w) of Inl e \<Rightarrow> True | Inr x \<Rightarrow> ?P x)"
    using r by (simp add: backup_existing_def uuid4_hex_def io_return_def reflpD Let_def)
qed

lemma spec_rename_steps:
  assumes r: "reflp R" and t: "transp R"
    and mv: "\<And>fs p q. fst p = d \<Longrightarrow> fst q = d \<Longrightarrow> R fs (move_entry p q fs)"
    and rm: "\<And>fs p. fst p = d \<Longrightarrow> R fs (delete_entry p fs)"
    and d: "fst fp = d" "fst lp = d" "fst tp = d"
  shows "io_spec R (\<lambda>_. True) (rename_steps lf fp lp tp)"
proof -
  have tail: "io_spec R (\<lambda>_. True)
      (io_bind (identical bp lp) (\<lambda>same.
         if same then os_remove bp
         else (case lf of None \<Rightarrow> io_raise (NameError ''lowercase_filename'')
               | Some lowercase_filename \<Rightarrow> os_rename bp (fst lp, alt_name lowercase_filename))))"
    if "fst bp = d" for bp
    apply (rule spec_bind [OF t spec_identical [OF r t]])
    apply (cases lf)
     apply (simp_all add: spec_os_remove [OF r] rm that spec_raise [OF r] spec_os_rename [OF r] mv d)
    done
  show ?thesis
    unfolding rename_steps_def
    apply (rule spec_bind [OF t spec_os_rename [OF r]])
     apply (simp add: mv d)
    apply (rule spec_bind [OF t spec_backup_existing [OF r t]])
     apply (simp add: mv d)
    apply (rule spec_bind [OF t spec_os_rename [OF r]])
     apply (simp add: mv d)
    subgoal for x y z
      apply (cases y)
       apply (simp add: spec_return [OF r])
      apply (simp add: tail d)
      done
    done
qed

lemma restore_keeps:
  assumes r: "reflp R" and mv: "\<And>fs. R fs (move_entry tp fp fs)"
  shows "R (files w) (files (restore tp fp w))"
  using io_specD(1) [OF spec_os_rename [OF r mv], of w] r
  by (simp add: restore_def reflpD)

lemma convert_one_keeps:
  assumes r: "reflp R" and t: "transp R"
    and mv: "\<And>fs p q. fst p = d \<Longrightarrow> fst q = d \<Longrightarrow> R fs (move_entry p q fs)"
    and rm: "\<And>fs p. fst p = d \<Longrightarrow> R fs (delete_entry p fs)"
    and d: "fst fp = d" "fst lp = d"
  shows "R (files w) (files (fst (convert_one lf (fp, lp) (w, rn, sk))))"
proof -
  let ?w1 = "w\<lparr>uuid_next := Suc (uuid_next w)\<rparr>"
  let ?tp = "temp_path (fst fp) (uuid_src w (uuid_next w)) (snd fp)"
  have dt: "fst ?tp = d" by (simp add: temp_path_def d)
  obtain res w2 where st: "rename_steps lf fp lp ?tp ?w1 = (res, w2)"
    by (cases "rename_steps lf fp lp ?tp ?w1")
  have sp: "io_spec R (\<lambda>_. True) (rename_steps lf fp lp ?tp)"
    by (rule spec_rename_steps [OF r t mv rm d dt])
  have a: "R (files w) (files w2)"
    using io_specD(1) [OF sp, of ?w1] st by simp
  have b: "R (files w2) (files (restore ?tp fp w2))"
    by (rule restore_keeps [OF r], rule mv [OF dt d(1)])
  from a b t have c: "R (files w) (files (restore ?tp fp w2))" by (blast dest: transpD)
  show ?thesis
    using st a c by (cases res) (simp_all add: convert_one_def uuid4_hex_def)
qed

lemma reflp_untouched: "reflp (untouched r)"
  by (simp add: reflp_def untouched_def)

lemma transp_untouched: "transp (untouched r)"
  by (simp add: transp_def untouched_def)

lemma untouched_delete: "fst p \<noteq> r \<Longrightarrow> untouched r fs (delete_entry p fs)"
  unfolding untouched_def delete_entry_def
  by (induction fs) auto

lemma untouched_move: "fst p \<noteq> r \<Longrightarrow> fst q \<noteq> r \<Longrightarrow> untouched r fs (move_entry p q fs)"
  unfolding untouched_def move_entry_def delete_entry_def
  by (induction fs) auto

lemma convert_one_untouched:
  assumes "fst fp \<noteq> r" and "fst lp = fst fp"
  shows "untouched r (files w) (files (fst (convert_one lf (fp, lp) (w, rn, sk))))"
  by (rule convert_one_keeps [OF reflp_untouched transp_untouched, where d = "fst fp"])
     (simp_all add: assms untouched_move untouched_delete)

lemma convert_one_report:
  "snd (convert_one lf (fp, lp) (w, rn, sk)) = (rn @ [(fp, lp)], sk)
   \<or> (\<exists>e. snd (convert_one lf (fp, lp) (w, rn, sk)) = (rn, sk @ [(fp, e)]))"
  by (auto simp: convert_one_def uuid4_hex_def Let_def split: prod.splits sum.splits)

lemma second_pass_untouched:
  assumes "\<forall>pl \<in> set pls. fst (fst pl) \<noteq> r \<and> fst (snd pl) = fst (fst pl)"
  shows "untouched r (files (fst st)) (files (fst (second_pass lf pls st)))"
  using assms
proof (induction pls arbitrary: st)
  case Nil
  show ?case by (simp add: untouched_def)
next
  case (Cons pl pls)
  obtain fp lp where pl: "pl = (fp, lp)" by (cases pl)
  obtain w rn sk where st: "st = (w, rn, sk)" by (cases st)
  have a: "untouched r (files w) (files (fst (convert_one lf (fp, lp) (w, rn, sk))))"
    using Cons.prems by (intro convert_one_untouched) (simp_all add: pl)
  have b: "untouched r (files (fst (convert_one lf (fp, lp) (w, rn, sk))))
             (files (fst (second_pass lf pls (convert_one lf (fp, lp) (w, rn, sk)))))"
    using Cons.prems by (intro Cons.IH) simp
  from a b show ?case by (simp add: pl st untouched_def)
qed

lemma second_pass_step:
  obtains w' where "convert_one lf (fp, lp) (w, rn, sk) = (w', rn @ [(fp, lp)], sk)"
  | w' e where "convert_one lf (fp, lp) (w, rn, sk) = (w', rn, sk @ [(fp, e)])"
  using convert_one_report [of lf fp lp w rn sk]
  by (cases "convert_one lf (fp, lp) (w, rn, sk)") auto

lemma second_pass_accounts:
  "mset (map fst (fst (snd (second_pass lf pls st)))) + mset (map fst (snd (snd (second_pass lf pls st))))
     = mset (map fst (fst (snd st))) + mset (map fst (snd (snd st))) + mset (map fst pls)"
proof (induction pls arbitrary: st)
  case Nil
  show ?case by simp
next
  case (Cons pl pls)
  obtain fp lp where pl: "pl = (fp, lp)" by (cases pl)
  obtain w rn sk where st: "st = (w, rn, sk)" by (cases st)
  show ?case
  proof (rule second_pass_step [of lf fp lp w rn sk])
    fix w' assume c: "convert_one lf (fp, lp) (w, rn, sk) = (w', rn @ [(fp, lp)], sk)"
    from Cons.IH [of "(w', rn @ [(fp, lp)], sk)"] show ?thesis
      by (simp add: pl st c)
  next
    fix w' e assume c: "convert_one lf (fp, lp) (w, rn, sk) = (w', rn, sk @ [(fp, e)])"
    from Cons.IH [of "(w', rn, sk @ [(fp, e)])"] show ?thesis
      by (simp add: pl st c)
  qed
qed

lemma second_pass_renamed:
  "set (fst (snd (second_pass lf pls st))) \<subseteq> set (fst (snd st)) \<union> set pls"
proof (induction pls arbitrary: st)
  case Nil
  show ?case by simp
next
  case (Cons pl pls)
  obtain fp lp where pl: "pl = (fp, lp)" by (cases pl)
  obtain w rn sk where st: "st = (w, rn, sk)" by (cases st)
  show ?case
  proof (rule second_pass_step [of lf fp lp w rn sk])
    fix w' assume c: "convert_one lf (fp, lp) (w, rn, sk) = (w', rn @ [(fp, lp)], sk)"
    from Cons.IH [of "(w', rn @ [(fp, lp)], sk)"] show ?thesis
      by (simp add: pl st c; blast)
  next
    fix w' e assume c: "convert_one lf (fp, lp) (w, rn, sk) = (w', rn, sk @ [(fp, e)])"
    from Cons.IH [of "(w', rn, sk @ [(fp, e)])"] show ?thesis
      by (simp add: pl st c; blast)
  qed
qed


text \<open>
  C8. A directory whose path string has an exclusion entry as a prefix is skipped by the
  forward pass: its entries, names and bytes, are after the run what they were when the
  forward pass began (that is, as the reversal stage left them; as they were at the start
  when there is no revert directory), and no reported rename has its source or its
  destination there. The test is on the raw string, so excluding \<open>/src/lib\<close> also
  excludes \<open>/src/libfoo\<close> (the witness).
\<close>

theorem C8_excluded_directory_untouched:
  assumes "should_exclude exclude_dirs root"
  shows "dir_entries (fst (convert_to_lowercase directory exclude_dirs revert_dirs w)) root
           = dir_entries (fst (revert_all revert_dirs (w, []))) root
       \<and> (\<forall>pl \<in> set (fst (snd (convert_to_lowercase directory exclude_dirs revert_dirs w))).
             fst (fst pl) \<noteq> root \<and> fst (snd pl) \<noteq> root)"
proof -
  obtain w1 rv where ra: "revert_all revert_dirs (w, []) = (w1, rv)"
    by (cases "revert_all revert_dirs (w, [])")
  obtain pls lf where fp: "first_pass directory exclude_dirs w1 = (pls, lf)"
    by (cases "first_pass directory exclude_dirs w1")
  have shape: "\<forall>pl \<in> set pls. fst (fst pl) \<noteq> root \<and> fst (snd pl) = fst (fst pl)"
  proof
    fix pl assume "pl \<in> set pls"
    then have "pl \<in> set (fst (first_pass directory exclude_dirs w1))" by (simp add: fp)
    from plan_shape [OF this] assms show "fst (fst pl) \<noteq> root \<and> fst (snd pl) = fst (fst pl)"
      by auto
  qed
  obtain w2 rn sk where sp: "second_pass lf pls (w1, [], []) = (w2, rn, sk)"
    by (cases "second_pass lf pls (w1, [], [])")
  have res: "convert_to_lowercase directory exclude_dirs revert_dirs w = (w2, rn, sk, rv)"
    by (simp add: convert_to_lowercase_def ra fp sp)
  from second_pass_untouched [OF shape, of "(w1, [], [])" lf] sp
  have a: "dir_entries w2 root = dir_entries w1 root"
    by (simp add: untouched_def dir_entries_def)
  from second_pass_renamed [of lf pls "(w1, [], [])"] sp
  have sub: "set rn \<subseteq> set pls" by simp
  have b: "\<forall>pl \<in> set rn. fst (fst pl) \<noteq> root \<and> fst (snd pl) \<noteq> root"
  proof
    fix pl assume "pl \<in> set rn"
    with sub have "pl \<in> set pls" by blast
    with shape show "fst (fst pl) \<noteq> root \<and> fst (snd pl) \<noteq> root" by simp
  qed
  from a b show ?thesis by (simp add: res ra)
qed

theorem C8_excluded_directory_untouched_witness:
  "should_exclude [''/src/lib''] ''/src/libfoo''
   \<and> dir_entries (fst (convert_to_lowercase ''/src'' [''/src/lib''] [] prefix_world)) ''/src/libfoo''
       = [((''/src/libfoo'', ''Foo.hpp''), ''f'')]
   \<and> fst (snd (convert_to_lowercase ''/src'' [''/src/lib''] [] prefix_world))
       = [((''/src'', ''Main.cpp''), (''/src'', ''main.cpp''))]"
proof -
  have h: "should_exclude [''/src/lib''] ''/src/libfoo''" by code_simp
  have e: "dir_entries prefix_world ''/src/libfoo'' = [((''/src/libfoo'', ''Foo.hpp''), ''f'')]"
    by code_simp
  have r: "fst (snd (convert_to_lowercase ''/src'' [''/src/lib''] [] prefix_world))
       = [((''/src'', ''Main.cpp''), (''/src'', ''main.cpp''))]"
    by code_simp
  from C8_excluded_directory_untouched [OF h, of "''/src''" "[]" prefix_world] h e r
  show ?thesis by simp
qed

section \<open>A collision with identical bytes\<close>




section \<open>A failed plan\<close>

lemma files_fault_next: "files (snd (fault_next w)) = files w"
  by (simp add: fault_next_def split: list.splits)

lemma restore_absent: "\<not> path_exists w tp \<Longrightarrow> restore tp fp w = w"
  by (simp add: restore_def)

lemma restore_done:
  assumes ex: "path_exists w tp" and ok: "\<not> fst (fault_next w)"
  shows "lookup (restore tp fp w) fp = lookup w tp"
    and "tp \<noteq> fp \<Longrightarrow> \<not> path_exists (restore tp fp w) tp"
proof -
  obtain w1 where fn: "fault_next w = (False, w1)"
    using ok by (cases "fault_next w") auto
  have f1: "files w1 = files w" using files_fault_next [of w] fn by simp
  obtain c where c: "lookup w tp = Some c" using ex by (auto simp: path_exists_def)
  then have "lookup w1 tp = Some c" by (simp add: lookup_def f1)
  then have r: "restore tp fp w = w1\<lparr>files := move_entry tp fp (files w)\<rparr>"
    using ex by (simp add: restore_def os_rename_def fn f1)
  show "lookup (restore tp fp w) fp = lookup w tp"
    by (simp add: r lookup_def map_of_move_entry)
  show "\<not> path_exists (restore tp fp w) tp" if "tp \<noteq> fp"
    using that by (simp add: r path_exists_def lookup_def map_of_move_entry)
qed

lemma restore_refused:
  assumes "path_exists w tp" and "fst (fault_next w)"
  shows "files (restore tp fp w) = files w"
  using assms files_fault_next [of w]
  by (auto simp: restore_def os_rename_def split: prod.splits bool.splits)

lemma convert_one_raised:
  assumes "rename_steps lf fp lp (temp_path (fst fp) (uuid_src w (uuid_next w)) (snd fp))
             (snd (uuid4_hex w)) = (Inl e, wx)"
  shows "convert_one lf (fp, lp) (w, rn, sk)
           = (restore (temp_path (fst fp) (uuid_src w (uuid_next w)) (snd fp)) fp wx, rn, sk @ [(fp, e)])"
  using assms by (simp add: convert_one_def uuid4_hex_def)

text \<open>
  C6. The second pass accounts for every plan: each source ends in exactly one of the
  two lists, so no failure stops the loop. When the steps of a plan raise \<open>e\<close>, leaving
  the world \<open>wx\<close>, the plan is recorded as skipped with \<open>e\<close> whatever becomes of the
  compensation: if the temporary file does not exist nothing more happens; if it exists
  and the rename back is not refused, the source path holds its bytes again and the
  temporary name is gone; if the rename back is refused, the files stay as they were at
  the failure, and the failure is still recorded.
\<close>

theorem C6_failure_is_local:
  fixes lf :: "string option" and fp lp :: path and w :: world
    and rn :: "plan list" and sk :: "(path \<times> error) list"
  defines "tp \<equiv> temp_path (fst fp) (uuid_src w (uuid_next w)) (snd fp)"
  defines "w' \<equiv> fst (convert_one lf (fp, lp) (w, rn, sk))"
  shows
  "mset (map fst (fst (snd (second_pass lf pls (w0, rn0, sk0)))))
     + mset (map fst (snd (snd (second_pass lf pls (w0, rn0, sk0)))))
     = mset (map fst rn0) + mset (map fst sk0) + mset (map fst pls)
   \<and> (rename_steps lf fp lp tp (snd (uuid4_hex w)) = (Inl e, wx)
        \<longrightarrow> snd (convert_one lf (fp, lp) (w, rn, sk)) = (rn, sk @ [(fp, e)])
          \<and> (\<not> path_exists wx tp \<longrightarrow> w' = wx)
          \<and> (path_exists wx tp \<and> \<not> fst (fault_next wx)
               \<longrightarrow> lookup w' fp = lookup wx tp \<and> (tp \<noteq> fp \<longrightarrow> \<not> path_exists w' tp))
          \<and> (path_exists wx tp \<and> fst (fault_next wx) \<longrightarrow> files w' = files wx))"
proof (intro conjI impI)
  show "mset (map fst (fst (snd (second_pass lf pls (w0, rn0, sk0)))))
     + mset (map fst (snd (snd (second_pass lf pls (w0, rn0, sk0)))))
     = mset (map fst rn0) + mset (map fst sk0) + mset (map fst pls)"
    using second_pass_accounts [of lf pls "(w0, rn0, sk0)"] by simp
next
  assume st: "rename_steps lf fp lp tp (snd (uuid4_hex w)) = (Inl e, wx)"
  note c = convert_one_raised [OF st [unfolded tp_def], of rn sk, folded tp_def]
  show "snd (convert_one lf (fp, lp) (w, rn, sk)) = (rn, sk @ [(fp, e)])"
    by (simp add: c)
  show "w' = wx" if "\<not> path_exists wx tp"
    using that by (simp add: w'_def c restore_absent)
  show "lookup w' fp = lookup wx tp" if "path_exists wx tp \<and> \<not> fst (fault_next wx)"
    using that restore_done(1) [of wx tp fp] by (simp add: w'_def c)
  show "\<not> path_exists w' tp" if "path_exists wx tp \<and> \<not> fst (fault_next wx)" and "tp \<noteq> fp"
    using that restore_done(2) [of wx tp fp] by (simp add: w'_def c)
  show "files w' = files wx" if "path_exists wx tp \<and> fst (fault_next wx)"
    using that restore_refused [of wx tp fp] by (simp add: w'_def c)
qed

theorem C6_failure_is_local_witness:
  "snd (convert_one (Some ''bar.cpp'') ((''/r'', ''Foo.hpp''), (''/r'', ''foo.hpp'')) (refused_once_world, [], []))
     = ([], [((''/r'', ''Foo.hpp''), OSError)])
   \<and> lookup (fst (convert_one (Some ''bar.cpp'') ((''/r'', ''Foo.hpp''), (''/r'', ''foo.hpp''))
                     (refused_once_world, [], []))) (''/r'', ''Foo.hpp'') = Some ''A''
   \<and> \<not> path_exists (fst (convert_one (Some ''bar.cpp'') ((''/r'', ''Foo.hpp''), (''/r'', ''foo.hpp''))
                           (refused_once_world, [], []))) (''/r'', ''temp_0.hpp'')
   \<and> snd (convert_to_lowercase ''/r'' [] [] refused_once_world)
     = ([((''/r'', ''Bar.cpp''), (''/r'', ''bar.cpp''))], [((''/r'', ''Foo.hpp''), OSError)], [])"
proof -
  let ?fp = "(''/r'', ''Foo.hpp'')"
  let ?lp = "(''/r'', ''foo.hpp'')"
  let ?w = refused_once_world
  let ?tp = "temp_path (fst ?fp) (uuid_src ?w (uuid_next ?w)) (snd ?fp)"
  let ?run = "rename_steps (Some ''bar.cpp'') ?fp ?lp ?tp (snd (uuid4_hex ?w))"
  have t: "?tp = (''/r'', ''temp_0.hpp'')" by code_simp
  have "fst ?run = Inl OSError" by code_simp
  then have st: "?run = (Inl OSError, snd ?run)" by (simp add: prod_eq_iff)
  have ex: "path_exists (snd ?run) ?tp" by code_simp
  have ok: "\<not> fst (fault_next (snd ?run))" by code_simp
  have c: "lookup (snd ?run) ?tp = Some ''A''" by code_simp
  have ne: "?tp \<noteq> ?fp" by code_simp
  have all: "snd (convert_to_lowercase ''/r'' [] [] refused_once_world)
     = ([((''/r'', ''Bar.cpp''), (''/r'', ''bar.cpp''))], [((''/r'', ''Foo.hpp''), OSError)], [])"
    by code_simp
  from C6_failure_is_local [where lf = "Some ''bar.cpp''" and fp = ?fp and lp = ?lp and w = ?w
      and e = OSError and wx = "snd ?run" and rn = "[]" and sk = "[]"]
    st ex ok c ne all
  show ?thesis unfolding t by simp
qed

section \<open>Reversal\<close>






lemma set_built_names:
  "set (built_names name ext) =
     {t name @ ''.'' @ e | t e. t \<in> set capitalization_patterns \<and> t name \<noteq> name \<and> e \<in> set (ext_variants ext)}
     \<union> {str_upper name @ ''.'' @ ext, str_capitalize name @ ''.'' @ ext}"
  by (auto simp: built_names_def Let_def)

lemma revert_to_cases:
  obtains w' where "revert_to fp op w = (True, w')" | w' where "revert_to fp op w = (False, w')"
  by (cases "revert_to fp op w") (metis (full_types))

text \<open>
  C9, amended. The candidates for a file are: each of the four transforms
  capitalize-first-letter, all-uppercase, camelCase, PascalCase that changes the stem,
  combined with each extension variant, and the all-uppercase and the capitalized stem
  with the extension as it is. They pass through a set, so they are tried in the order
  in which the set enumerates them (any order with the same elements), not in a fixed
  most-confident-first order. When a sibling matches case-insensitively it is the only
  name tried: the outcome is either no entry or the rename to that sibling.
\<close>

theorem C9_candidates_as_built:
  "((\<forall>xs. set (set_order w xs) = set xs)
      \<longrightarrow> set (potential_original_names w filename)
            = {t (fst (splitext filename)) @ ''.'' @ e | t e.
                 t \<in> set [cap_first, str_upper, camel_case, pascal_case]
                 \<and> t (fst (splitext filename)) \<noteq> fst (splitext filename)
                 \<and> e \<in> set (ext_variants (drop 1 (snd (splitext filename))))}
              \<union> {str_upper (fst (splitext filename)) @ ''.'' @ drop 1 (snd (splitext filename)),
                  str_capitalize (fst (splitext filename)) @ ''.'' @ drop 1 (snd (splitext filename))})
   \<and> (in_scope filename \<and> filename = str_lower filename \<and> similar_files w root filename = s # ss
      \<longrightarrow> snd (revert_one root filename (w, rv)) = rv
          \<or> snd (revert_one root filename (w, rv)) = rv @ [((root, filename), (root, s))])"
proof (intro conjI impI)
  assume "\<forall>xs. set (set_order w xs) = set xs"
  then show "set (potential_original_names w filename)
            = {t (fst (splitext filename)) @ ''.'' @ e | t e.
                 t \<in> set [cap_first, str_upper, camel_case, pascal_case]
                 \<and> t (fst (splitext filename)) \<noteq> fst (splitext filename)
                 \<and> e \<in> set (ext_variants (drop 1 (snd (splitext filename))))}
              \<union> {str_upper (fst (splitext filename)) @ ''.'' @ drop 1 (snd (splitext filename)),
                  str_capitalize (fst (splitext filename)) @ ''.'' @ drop 1 (snd (splitext filename))}"
    by (simp add: potential_original_names_def split_beta set_built_names
        capitalization_patterns_def del: set_simps)
next
  assume a: "in_scope filename \<and> filename = str_lower filename \<and> similar_files w root filename = s # ss"
  show "snd (revert_one root filename (w, rv)) = rv
          \<or> snd (revert_one root filename (w, rv)) = rv @ [((root, filename), (root, s))]"
  proof (rule revert_to_cases [of "(root, filename)" "(root, s)" w])
    fix w' assume "revert_to (root, filename) (root, s) w = (True, w')"
    with a have "revert_one root filename (w, rv) = (w', rv @ [((root, filename), (root, s))])"
      by (auto simp: revert_one_def Let_def)
    then show ?thesis by simp
  next
    fix w' assume "revert_to (root, filename) (root, s) w = (False, w')"
    with a have "revert_one root filename (w, rv) = (w', rv)"
      by (auto simp: revert_one_def Let_def)
    then show ?thesis by simp
  qed
qed

theorem C9_candidates_as_built_witness:
  "''myFile.CPP'' \<in> set (potential_original_names digits_world ''my_file.cpp'')
   \<and> ''MY_FILE.cpp'' \<in> set (potential_original_names digits_world ''my_file.cpp'')
   \<and> snd (revert_one ''/r'' ''foo.hpp'' (sibling_world, []))
       = [((''/r'', ''foo.hpp''), (''/r'', ''Foo.hpp''))]"
proof -
  have so: "\<forall>xs. set (set_order digits_world xs) = set xs"
    by (simp add: digits_world_def example_world_def)
  have sp: "splitext ''my_file.cpp'' = (''my_file'', ''.cpp'')" by code_simp
  have cc: "camel_case ''my_file'' = ''myFile''" by code_simp
  have up: "str_upper ''my_file'' = ''MY_FILE''" by code_simp
  have ev: "ext_variants ''cpp'' = [''CPP'', ''Cpp'']" by code_simp
  have sc: "in_scope ''foo.hpp'' \<and> ''foo.hpp'' = str_lower ''foo.hpp''
            \<and> similar_files sibling_world ''/r'' ''foo.hpp'' = [''Foo.hpp'']"
    by code_simp
  have ne: "snd (revert_one ''/r'' ''foo.hpp'' (sibling_world, [])) \<noteq> []" by code_simp
  note th = C9_candidates_as_built [where w = digits_world and filename = "''my_file.cpp''"]
  note th1 = th [THEN conjunct1, THEN mp, OF so]
  have m1: "''myFile.CPP'' \<in> set (potential_original_names digits_world ''my_file.cpp'')"
    unfolding th1 sp
    by (rule UnI1, rule CollectI, rule exI [of _ camel_case], rule exI [of _ "''CPP''"])
       (simp add: cc ev)
  have m2: "''MY_FILE.cpp'' \<in> set (potential_original_names digits_world ''my_file.cpp'')"
    unfolding th1 sp by (simp add: up)
  from C9_candidates_as_built [where w = sibling_world and filename = "''foo.hpp''" and root = "''/r''"
      and s = "''Foo.hpp''" and ss = "[]" and rv = "[]", THEN conjunct2] sc ne
  have m3: "snd (revert_one ''/r'' ''foo.hpp'' (sibling_world, []))
       = [((''/r'', ''foo.hpp''), (''/r'', ''Foo.hpp''))]"
    by simp
  from m1 m2 m3 show ?thesis by blast
qed

section \<open>A second forward run\<close>








































end
